theory Spec2Isabelle
  imports Complex_Main "HOL-Library.Monad_Syntax"
begin

section \<open>Numbers and faults\<close>

text \<open>
  The program of \<^verbatim>\<open>main_lr_pl_v.cpp\<close> computes in \<^verbatim>\<open>float\<close> and \<^verbatim>\<open>double\<close>. The
  embedding reads both as \<^typ>\<open>real\<close>: every operation is exact, a conversion between
  the two widths is the identity, and there is no infinity and no NaN. Rounding,
  overflow and absorption (\<^verbatim>\<open>x + 1.f == x\<close> for a large \<^verbatim>\<open>x\<close>) are therefore outside
  what is proved here.

  IEEE division by zero yields an infinity or a NaN, values the exact model does not
  have. Every division of the source is therefore the checked \<open>fdiv\<close>, and a function
  that divides returns an \<open>option\<close>: \<open>None\<close> records that some division of the run had
  the divisor zero (or, in \<open>erase\<close>, that an index was out of range).
\<close>

definition fdiv :: "real \<Rightarrow> real \<Rightarrow> real option" where
  "fdiv u v = (if v = 0 then None else Some (u / v))"

section \<open>Points and the linear fit\<close>

text \<open>\<^verbatim>\<open>struct Point { float x; float y; }\<close>; the fields are \<open>px\<close> and \<open>py\<close> here.\<close>

record Point =
  px :: real
  py :: real

text \<open>The first loop of \<^verbatim>\<open>computeLinearRegression\<close>: \<^verbatim>\<open>sumX += p.x; sumY += p.y\<close>.\<close>

fun sumLoop :: "Point list \<Rightarrow> real \<times> real \<Rightarrow> real \<times> real" where
  "sumLoop [] acc = acc"
| "sumLoop (p # ps) (sumX, sumY) = sumLoop ps (sumX + px p, sumY + py p)"

text \<open>The second loop: \<^verbatim>\<open>numerator += dx * dy; denominator += dx * dx\<close>.\<close>

fun devLoop :: "real \<Rightarrow> real \<Rightarrow> Point list \<Rightarrow> real \<times> real \<Rightarrow> real \<times> real" where
  "devLoop meanX meanY [] acc = acc"
| "devLoop meanX meanY (p # ps) (numerator, denominator) =
     (let dx = px p - meanX;
          dy = py p - meanY
      in devLoop meanX meanY ps (numerator + dx * dy, denominator + dx * dx))"

definition computeLinearRegression :: "Point list \<Rightarrow> (real \<times> real) option" where
  "computeLinearRegression points =
     (if points = [] then Some (0, 0)
      else do {
        let (sumX, sumY) = sumLoop points (0, 0);
        meanX \<leftarrow> fdiv sumX (real (length points));
        meanY \<leftarrow> fdiv sumY (real (length points));
        let (numerator, denominator) = devLoop meanX meanY points (0, 0);
        slope \<leftarrow> (if denominator \<noteq> 0 then fdiv numerator denominator else Some 0);
        let intercept = meanY - slope * meanX;
        Some (slope, intercept)
      })"

section \<open>The quadratic fit\<close>

text \<open>\<^verbatim>\<open>struct Poly2Coeffs { float a; float b; float c; }\<close> for \<open>y = a x\<^sup>2 + b x + c\<close>.\<close>

record Poly2Coeffs =
  coef_a :: real
  coef_b :: real
  coef_c :: real

text \<open>
  The power and cross sums, in the order \<open>(Sx, Sy, Sx2, Sx3, Sx4, Sxy, Sx2y)\<close> in which
  the source declares them.
\<close>

type_synonym powsums = "real \<times> real \<times> real \<times> real \<times> real \<times> real \<times> real"

fun powerSums :: "Point list \<Rightarrow> powsums \<Rightarrow> powsums" where
  "powerSums [] acc = acc"
| "powerSums (p # ps) (Sx, Sy, Sx2, Sx3, Sx4, Sxy, Sx2y) =
     (let x = px p;
          y = py p;
          x2 = x * x;
          x3 = x2 * x;
          x4 = x3 * x
      in powerSums ps (Sx + x, Sy + y, Sx2 + x2, Sx3 + x3, Sx4 + x4, Sxy + x * y, Sx2y + x2 * y))"

text \<open>A \<^verbatim>\<open>double[3][3]\<close> is a triple of rows.\<close>

type_synonym row3 = "real \<times> real \<times> real"
type_synonym mat3 = "row3 \<times> row3 \<times> row3"

fun det3 :: "mat3 \<Rightarrow> real" where
  "det3 ((m00, m01, m02), (m10, m11, m12), (m20, m21, m22)) =
     m00 * (m11 * m22 - m12 * m21) -
     m01 * (m10 * m22 - m12 * m20) +
     m02 * (m10 * m21 - m11 * m20)"

text \<open>
  The three copies of \<open>A\<close> with one column overwritten by \<open>B\<close>
  (\<^verbatim>\<open>memcpy\<close>, then \<^verbatim>\<open>A_c[i][0] = B[i]\<close> and so on).
\<close>

fun setCol0 :: "mat3 \<Rightarrow> row3 \<Rightarrow> mat3" where
  "setCol0 ((m00, m01, m02), (m10, m11, m12), (m20, m21, m22)) (B0, B1, B2) =
     ((B0, m01, m02), (B1, m11, m12), (B2, m21, m22))"

fun setCol1 :: "mat3 \<Rightarrow> row3 \<Rightarrow> mat3" where
  "setCol1 ((m00, m01, m02), (m10, m11, m12), (m20, m21, m22)) (B0, B1, B2) =
     ((m00, B0, m02), (m10, B1, m12), (m20, B2, m22))"

fun setCol2 :: "mat3 \<Rightarrow> row3 \<Rightarrow> mat3" where
  "setCol2 ((m00, m01, m02), (m10, m11, m12), (m20, m21, m22)) (B0, B1, B2) =
     ((m00, m01, B0), (m10, m11, B1), (m20, m21, B2))"

text \<open>The singularity threshold \<^verbatim>\<open>1e-12\<close>.\<close>

definition detEps :: real where
  "detEps = 1 / 10 ^ 12"

definition computePolynomialRegression2 :: "Point list \<Rightarrow> Poly2Coeffs option" where
  "computePolynomialRegression2 points =
     (let coeffs = \<lparr>coef_a = 0, coef_b = 0, coef_c = 0\<rparr>
      in if length points < 3 then Some coeffs
      else
        let (Sx, Sy, Sx2, Sx3, Sx4, Sxy, Sx2y) = powerSums points (0, 0, 0, 0, 0, 0, 0);
            n = real (length points);
            A = ((n, Sx, Sx2), (Sx, Sx2, Sx3), (Sx2, Sx3, Sx4));
            B = (Sy, Sxy, Sx2y);
            D = det3 A
        in if \<bar>D\<bar> < detEps then Some coeffs
        else do {
          let D_c = det3 (setCol0 A B);
          let D_b = det3 (setCol1 A B);
          let D_a = det3 (setCol2 A B);
          c \<leftarrow> fdiv D_c D;
          b \<leftarrow> fdiv D_b D;
          a \<leftarrow> fdiv D_a D;
          Some (coeffs\<lparr>coef_a := a, coef_b := b, coef_c := c\<rparr>)
        })"

text \<open>\<^verbatim>\<open>evaluatePoly2\<close>.\<close>

definition evaluatePoly2 :: "Poly2Coeffs \<Rightarrow> real \<Rightarrow> real" where
  "evaluatePoly2 coeffs x = coef_a coeffs * x * x + coef_b coeffs * x + coef_c coeffs"

section \<open>The state of \<^verbatim>\<open>main\<close>\<close>

datatype RegressionType = LINEAR | POLYNOMIAL2

text \<open>
  The local variables of \<^verbatim>\<open>main\<close> that the lambdas capture by reference. \<open>winW\<close> and
  \<open>winH\<close> are \<^verbatim>\<open>window.getSize()\<close> (unsigned); the axis fields are the two vertices of
  \<^verbatim>\<open>axisX\<close> and of \<^verbatim>\<open>axisY\<close> and the positions of the two labels.
\<close>

record State =
  dataPoints :: "Point list"
  currentReg :: RegressionType
  slope :: real
  intercept :: real
  polyCoeffs :: Poly2Coeffs
  minX :: real
  maxX :: real
  minY :: real
  maxY :: real
  winW :: nat
  winH :: nat
  axisX0 :: "real \<times> real"
  axisX1 :: "real \<times> real"
  axisY0 :: "real \<times> real"
  axisY1 :: "real \<times> real"
  labelXpos :: "real \<times> real"
  labelYpos :: "real \<times> real"

subsection \<open>\<^verbatim>\<open>updateModelAndBounds\<close>\<close>

text \<open>The scan for the extrema; the accumulator is \<open>(minX, maxX, minY, maxY)\<close>.\<close>

fun boundsLoop :: "Point list \<Rightarrow> real \<times> real \<times> real \<times> real \<Rightarrow> real \<times> real \<times> real \<times> real" where
  "boundsLoop [] acc = acc"
| "boundsLoop (p # ps) (loX, hiX, loY, hiY) =
     boundsLoop ps
       (if px p < loX then px p else loX,
        if px p > hiX then px p else hiX,
        if py p < loY then py p else loY,
        if py p > hiY then py p else hiY)"

definition updateModelAndBounds :: "State \<Rightarrow> State option" where
  "updateModelAndBounds st =
     (case dataPoints st of
        front # rest \<Rightarrow>
          let (loX, hiX, loY, hiY) =
                boundsLoop (dataPoints st) (px front, px front, py front, py front);
              pad = 1;
              st1 = st\<lparr>minX := loX - pad, maxX := hiX + pad,
                       minY := loY - pad, maxY := hiY + pad\<rparr>
          in if currentReg st1 = LINEAR then do {
               (s, b) \<leftarrow> computeLinearRegression (dataPoints st1);
               Some (st1\<lparr>slope := s, intercept := b\<rparr>)
             }
             else do {
               pc \<leftarrow> computePolynomialRegression2 (dataPoints st1);
               Some (st1\<lparr>polyCoeffs := pc\<rparr>)
             }
      | [] \<Rightarrow>
          Some (st\<lparr>minX := - 1, maxX := 1, minY := - 1, maxY := 1,
                   slope := 0, intercept := 0,
                   polyCoeffs := \<lparr>coef_a = 0, coef_b = 0, coef_c = 0\<rparr>\<rparr>))"

subsection \<open>The coordinate maps\<close>

definition toScreenCoords :: "State \<Rightarrow> real \<Rightarrow> real \<Rightarrow> (real \<times> real) option" where
  "toScreenCoords st x y =
     (let w = real (winW st);
          h = real (winH st);
          topMargin = 120
      in do {
        tx \<leftarrow> fdiv (x - minX st) (maxX st - minX st);
        let screenX = 50 + tx * (w - 100);
        ty \<leftarrow> fdiv (y - minY st) (maxY st - minY st);
        let screenY = h - 50 - ty * (h - topMargin - 100);
        Some (screenX, screenY)
      })"


subsection \<open>\<^verbatim>\<open>updateAxes\<close>\<close>

text \<open>Colours and label strings are constants of the source and are left out.\<close>

definition updateAxes :: "State \<Rightarrow> State option" where
  "updateAxes st = do {
     a0 \<leftarrow> toScreenCoords st (minX st) 0;
     a1 \<leftarrow> toScreenCoords st (maxX st) 0;
     b0 \<leftarrow> toScreenCoords st 0 (minY st);
     b1 \<leftarrow> toScreenCoords st 0 (maxY st);
     lx \<leftarrow> toScreenCoords st (maxX st) 0;
     ly \<leftarrow> toScreenCoords st 0 (maxY st);
     Some (st\<lparr>axisX0 := a0, axisX1 := a1, axisY0 := b0, axisY1 := b1,
              labelXpos := (fst lx - 20, snd lx + 5),
              labelYpos := (fst ly + 5, snd ly)\<rparr>)
   }"

subsection \<open>\<^verbatim>\<open>removeNearestPoint\<close>\<close>

text \<open>\<^verbatim>\<open>std::numeric_limits<float>::max()\<close>, that is \<open>(2\<^sup>2\<^sup>4 - 1) \<sqdot> 2\<^sup>1\<^sup>0\<^sup>4\<close>.\<close>

definition FLT_MAX :: real where
  "FLT_MAX = 340282346638528859811704183484516925440"

text \<open>
  The search loop. The list argument is what is left of \<open>dataPoints\<close> from index \<open>i\<close> on;
  the accumulator is \<open>(minDist, minIndex)\<close>. The index is an \<^verbatim>\<open>int\<close> in the source and
  starts the search at \<open>-1\<close>.
\<close>

fun nearestLoop :: "State \<Rightarrow> real \<Rightarrow> real \<Rightarrow> Point list \<Rightarrow> int \<Rightarrow> real \<times> int \<Rightarrow> (real \<times> int) option" where
  "nearestLoop st mouseXScreen mouseYScreen [] i acc = Some acc"
| "nearestLoop st mouseXScreen mouseYScreen (p # ps) i (minDist, minIndex) = do {
     ptScreen \<leftarrow> toScreenCoords st (px p) (py p);
     let dx = fst ptScreen - mouseXScreen;
     let dy = snd ptScreen - mouseYScreen;
     let dist = sqrt (dx * dx + dy * dy);
     nearestLoop st mouseXScreen mouseYScreen ps (i + 1)
       (if dist < minDist then (dist, i) else (minDist, minIndex))
   }"

text \<open>
  \<^verbatim>\<open>dataPoints.erase(dataPoints.begin() + minIndex)\<close>; an index that is not one of the
  vector's is undefined behaviour in the source and \<open>None\<close> here.
\<close>

definition erase :: "'a list \<Rightarrow> int \<Rightarrow> 'a list option" where
  "erase xs i =
     (if 0 \<le> i \<and> i < int (length xs) then Some (take (nat i) xs @ drop (Suc (nat i)) xs)
      else None)"

definition removeNearestPoint :: "State \<Rightarrow> real \<Rightarrow> real \<Rightarrow> State option" where
  "removeNearestPoint st mouseXScreen mouseYScreen =
     (if dataPoints st = [] then Some st
      else do {
        (minDist, minIndex) \<leftarrow>
          nearestLoop st mouseXScreen mouseYScreen (dataPoints st) 0 (FLT_MAX, - 1);
        if minDist < 10 \<and> minIndex \<ge> 0 then do {
          pts \<leftarrow> erase (dataPoints st) minIndex;
          st1 \<leftarrow> updateModelAndBounds (st\<lparr>dataPoints := pts\<rparr>);
          updateAxes st1
        }
        else Some st
      })"

section \<open>Closed forms used in the statements\<close>

text \<open>
  None of the definitions of this section is code of the program. They are the
  mathematical objects the properties are stated with: means and centred sums for the
  line, power sums, the normal equations and their Cramer solution for the parabola.
\<close>

definition meanOf :: "(Point \<Rightarrow> real) \<Rightarrow> Point list \<Rightarrow> real" where
  "meanOf f ps = (\<Sum>p\<leftarrow>ps. f p) / real (length ps)"

definition covSum :: "Point list \<Rightarrow> real" where
  "covSum ps = (\<Sum>p\<leftarrow>ps. (px p - meanOf px ps) * (py p - meanOf py ps))"

definition varSum :: "Point list \<Rightarrow> real" where
  "varSum ps = (\<Sum>p\<leftarrow>ps. (px p - meanOf px ps)\<^sup>2)"

definition pSum :: "nat \<Rightarrow> Point list \<Rightarrow> real" where
  "pSum j ps = (\<Sum>p\<leftarrow>ps. px p ^ j)"

definition cSum :: "nat \<Rightarrow> Point list \<Rightarrow> real" where
  "cSum j ps = (\<Sum>p\<leftarrow>ps. px p ^ j * py p)"

definition normalMatrix :: "Point list \<Rightarrow> mat3" where
  "normalMatrix ps =
     ((real (length ps), pSum 1 ps, pSum 2 ps),
      (pSum 1 ps, pSum 2 ps, pSum 3 ps),
      (pSum 2 ps, pSum 3 ps, pSum 4 ps))"

definition normalRhs :: "Point list \<Rightarrow> row3" where
  "normalRhs ps = (cSum 0 ps, cSum 1 ps, cSum 2 ps)"

definition normalDet :: "Point list \<Rightarrow> real" where
  "normalDet ps = det3 (normalMatrix ps)"

definition cramer :: "Point list \<Rightarrow> Poly2Coeffs" where
  "cramer ps =
     \<lparr>coef_a = det3 (setCol2 (normalMatrix ps) (normalRhs ps)) / normalDet ps,
      coef_b = det3 (setCol1 (normalMatrix ps) (normalRhs ps)) / normalDet ps,
      coef_c = det3 (setCol0 (normalMatrix ps) (normalRhs ps)) / normalDet ps\<rparr>"

definition solvesNormal :: "Point list \<Rightarrow> Poly2Coeffs \<Rightarrow> bool" where
  "solvesNormal ps q \<longleftrightarrow>
     real (length ps) * coef_c q + pSum 1 ps * coef_b q + pSum 2 ps * coef_a q = cSum 0 ps \<and>
     pSum 1 ps * coef_c q + pSum 2 ps * coef_b q + pSum 3 ps * coef_a q = cSum 1 ps \<and>
     pSum 2 ps * coef_c q + pSum 3 ps * coef_b q + pSum 4 ps * coef_a q = cSum 2 ps"

text \<open>
  The state invariant that \<^verbatim>\<open>updateModelAndBounds\<close> establishes, the affine map of
  \<^verbatim>\<open>toScreenCoords\<close> in closed form, and the Euclidean distance in the viewport between
  a data point and a query.
\<close>

definition validBounds :: "State \<Rightarrow> bool" where
  "validBounds st \<longleftrightarrow> minX st < maxX st \<and> minY st < maxY st"

definition viewX :: "State \<Rightarrow> real \<Rightarrow> real" where
  "viewX st x = 50 + (x - minX st) / (maxX st - minX st) * (real (winW st) - 100)"

definition viewY :: "State \<Rightarrow> real \<Rightarrow> real" where
  "viewY st y = real (winH st) - 50 - (y - minY st) / (maxY st - minY st) * (real (winH st) - 120 - 100)"

definition viewDist :: "State \<Rightarrow> real \<Rightarrow> real \<Rightarrow> Point \<Rightarrow> real" where
  "viewDist st qx qy p = sqrt ((viewX st (px p) - qx)\<^sup>2 + (viewY st (py p) - qy)\<^sup>2)"

text \<open>
  \<open>firstArgmin ds j\<close>: position \<open>j\<close> holds a minimum of \<open>ds\<close> and every earlier position
  holds a strictly larger value. \<open>argminFrom\<close> is the search loop on a list of distances.
\<close>

definition firstArgmin :: "real list \<Rightarrow> nat \<Rightarrow> bool" where
  "firstArgmin ds j \<longleftrightarrow>
     j < length ds \<and> (\<forall>l<length ds. ds ! j \<le> ds ! l) \<and> (\<forall>l<j. ds ! j < ds ! l)"

fun argminFrom :: "real list \<Rightarrow> int \<Rightarrow> real \<times> int \<Rightarrow> real \<times> int" where
  "argminFrom [] i acc = acc"
| "argminFrom (d # ds) i (md, mi) = argminFrom ds (i + 1) (if d < md then (d, i) else (md, mi))"

text \<open>
  A state to evaluate on: two points, an 800 by 600 window, and the bounds, coefficients
  and axes that the program derives from them (lemma \<open>exampleState_reached\<close>).
\<close>

definition exampleState :: State where
  "exampleState =
     \<lparr>dataPoints = [\<lparr>px = 0, py = 0\<rparr>, \<lparr>px = 2, py = 2\<rparr>],
      currentReg = LINEAR, slope = 1, intercept = 0,
      polyCoeffs = \<lparr>coef_a = 0, coef_b = 0, coef_c = 0\<rparr>,
      minX = - 1, maxX = 3, minY = - 1, maxY = 3,
      winW = 800, winH = 600,
      axisX0 = (50, 455), axisX1 = (750, 455),
      axisY0 = (225, 550), axisY1 = (225, 170),
      labelXpos = (730, 460), labelYpos = (230, 170)\<rparr>"

section \<open>The loops as sums\<close>

lemma sumLoop_eq:
  "sumLoop ps (u, v) = (u + (\<Sum>p\<leftarrow>ps. px p), v + (\<Sum>p\<leftarrow>ps. py p))"
  by (induction ps arbitrary: u v) (simp_all add: algebra_simps)

lemma devLoop_eq:
  "devLoop mx my ps (u, v) =
     (u + (\<Sum>p\<leftarrow>ps. (px p - mx) * (py p - my)), v + (\<Sum>p\<leftarrow>ps. (px p - mx) * (px p - mx)))"
  by (induction ps arbitrary: u v) (simp_all add: Let_def algebra_simps)

lemma powerSums_eq:
  "powerSums ps (s1, s2, s3, s4, s5, s6, s7) =
     (s1 + (\<Sum>p\<leftarrow>ps. px p), s2 + (\<Sum>p\<leftarrow>ps. py p), s3 + (\<Sum>p\<leftarrow>ps. px p ^ 2),
      s4 + (\<Sum>p\<leftarrow>ps. px p ^ 3), s5 + (\<Sum>p\<leftarrow>ps. px p ^ 4),
      s6 + (\<Sum>p\<leftarrow>ps. px p * py p), s7 + (\<Sum>p\<leftarrow>ps. px p ^ 2 * py p))"
  by (induction ps arbitrary: s1 s2 s3 s4 s5 s6 s7)
     (simp_all add: Let_def algebra_simps power2_eq_square power3_eq_cube power4_eq_xxxx)

lemma powerSums_start:
  "powerSums ps (0, 0, 0, 0, 0, 0, 0) =
     (pSum 1 ps, cSum 0 ps, pSum 2 ps, pSum 3 ps, pSum 4 ps, cSum 1 ps, cSum 2 ps)"
  by (simp add: powerSums_eq pSum_def cSum_def)

section \<open>The linear fit\<close>

lemma computeLinearRegression_closed:
  "computeLinearRegression ps =
     Some (if ps = [] then (0, 0)
           else let xbar = meanOf px ps;
                    ybar = meanOf py ps;
                    num = (\<Sum>p\<leftarrow>ps. (px p - xbar) * (py p - ybar));
                    den = (\<Sum>p\<leftarrow>ps. (px p - xbar)\<^sup>2)
                in if den \<noteq> 0 then (num / den, ybar - num / den * xbar) else (0, ybar))"
  by (simp add: computeLinearRegression_def fdiv_def sumLoop_eq devLoop_eq meanOf_def Let_def power2_eq_square)

lemma computeLinearRegression_total: "\<exists>r. computeLinearRegression ps = Some r"
  by (simp add: computeLinearRegression_closed)

lemma den_zero_iff:
  assumes "ps \<noteq> []"
  shows "(\<Sum>p\<leftarrow>ps. (px p - meanOf px ps)\<^sup>2) = 0 \<longleftrightarrow> (\<forall>p\<in>set ps. \<forall>q\<in>set ps. px p = px q)"
proof
  assume "(\<Sum>p\<leftarrow>ps. (px p - meanOf px ps)\<^sup>2) = 0"
  then have "\<forall>v\<in>set (map (\<lambda>p. (px p - meanOf px ps)\<^sup>2) ps). v = 0"
    by (subst (asm) sum_list_nonneg_eq_0_iff) auto
  then have "\<forall>p\<in>set ps. px p = meanOf px ps" by auto
  then show "\<forall>p\<in>set ps. \<forall>q\<in>set ps. px p = px q" by simp
next
  assume same: "\<forall>p\<in>set ps. \<forall>q\<in>set ps. px p = px q"
  obtain p0 where p0: "p0 \<in> set ps" using assms by (cases ps) auto
  have all: "\<forall>p\<in>set ps. px p = px p0" using same p0 by blast
  then have "map px ps = replicate (length ps) (px p0)"
    by (simp add: map_replicate_const[symmetric] cong: map_cong)
  then have "(\<Sum>p\<leftarrow>ps. px p) = real (length ps) * px p0"
    by (simp add: sum_list_replicate)
  then have "meanOf px ps = px p0" using assms by (simp add: meanOf_def)
  with all have "\<forall>p\<in>set ps. (px p - meanOf px ps)\<^sup>2 = 0" by simp
  then have "(\<Sum>p\<leftarrow>ps. (px p - meanOf px ps)\<^sup>2) = (\<Sum>p\<leftarrow>ps. 0)"
    by (intro arg_cong[where f = sum_list] map_cong) auto
  then show "(\<Sum>p\<leftarrow>ps. (px p - meanOf px ps)\<^sup>2) = 0" by simp
qed

section \<open>The quadratic fit and the normal equations\<close>

lemma detEps_pos: "0 < detEps"
  by (simp add: detEps_def)

lemma poly2_cases:
  "computePolynomialRegression2 ps =
     Some (if length ps < 3 \<or> \<bar>normalDet ps\<bar> < detEps
           then \<lparr>coef_a = 0, coef_b = 0, coef_c = 0\<rparr> else cramer ps)"
proof -
  have "normalDet ps \<noteq> 0" if "\<not> \<bar>normalDet ps\<bar> < detEps"
    using that detEps_pos by auto
  then show ?thesis
    unfolding computePolynomialRegression2_def powerSums_start Let_def
    by (auto simp: fdiv_def normalDet_def normalMatrix_def normalRhs_def cramer_def)
qed

lemma computePolynomialRegression2_total: "\<exists>c. computePolynomialRegression2 ps = Some c"
  by (simp add: poly2_cases)

lemma cramer_rows:
  fixes n s1 s2 s3 s4 r0 r1 r2 :: real
  shows "n * det3 (setCol0 ((n, s1, s2), (s1, s2, s3), (s2, s3, s4)) (r0, r1, r2))
         + s1 * det3 (setCol1 ((n, s1, s2), (s1, s2, s3), (s2, s3, s4)) (r0, r1, r2))
         + s2 * det3 (setCol2 ((n, s1, s2), (s1, s2, s3), (s2, s3, s4)) (r0, r1, r2))
         = r0 * det3 ((n, s1, s2), (s1, s2, s3), (s2, s3, s4))"
    and "s1 * det3 (setCol0 ((n, s1, s2), (s1, s2, s3), (s2, s3, s4)) (r0, r1, r2))
         + s2 * det3 (setCol1 ((n, s1, s2), (s1, s2, s3), (s2, s3, s4)) (r0, r1, r2))
         + s3 * det3 (setCol2 ((n, s1, s2), (s1, s2, s3), (s2, s3, s4)) (r0, r1, r2))
         = r1 * det3 ((n, s1, s2), (s1, s2, s3), (s2, s3, s4))"
    and "s2 * det3 (setCol0 ((n, s1, s2), (s1, s2, s3), (s2, s3, s4)) (r0, r1, r2))
         + s3 * det3 (setCol1 ((n, s1, s2), (s1, s2, s3), (s2, s3, s4)) (r0, r1, r2))
         + s4 * det3 (setCol2 ((n, s1, s2), (s1, s2, s3), (s2, s3, s4)) (r0, r1, r2))
         = r2 * det3 ((n, s1, s2), (s1, s2, s3), (s2, s3, s4))"
  by (simp_all add: algebra_simps)

lemma cramer_solves:
  assumes "normalDet ps \<noteq> 0"
  shows "solvesNormal ps (cramer ps)"
proof -
  let ?D = "det3 (normalMatrix ps)"
  let ?c = "det3 (setCol0 (normalMatrix ps) (normalRhs ps))"
  let ?b = "det3 (setCol1 (normalMatrix ps) (normalRhs ps))"
  let ?a = "det3 (setCol2 (normalMatrix ps) (normalRhs ps))"
  have D: "?D \<noteq> 0" using assms by (simp add: normalDet_def)
  have r: "real (length ps) * ?c + pSum 1 ps * ?b + pSum 2 ps * ?a = cSum 0 ps * ?D"
          "pSum 1 ps * ?c + pSum 2 ps * ?b + pSum 3 ps * ?a = cSum 1 ps * ?D"
          "pSum 2 ps * ?c + pSum 3 ps * ?b + pSum 4 ps * ?a = cSum 2 ps * ?D"
    unfolding normalMatrix_def normalRhs_def by (rule cramer_rows)+
  have "(real (length ps) * ?c + pSum 1 ps * ?b + pSum 2 ps * ?a) / ?D = cSum 0 ps"
       "(pSum 1 ps * ?c + pSum 2 ps * ?b + pSum 3 ps * ?a) / ?D = cSum 1 ps"
       "(pSum 2 ps * ?c + pSum 3 ps * ?b + pSum 4 ps * ?a) / ?D = cSum 2 ps"
    unfolding r using D by simp_all
  then show ?thesis
    by (simp add: solvesNormal_def cramer_def normalDet_def add_divide_distrib)
qed

lemma cramer_unique_cols:
  fixes a b c :: real
  assumes "n * c + s1 * b + s2 * a = r0"
    and "s1 * c + s2 * b + s3 * a = r1"
    and "s2 * c + s3 * b + s4 * a = r2"
  shows "det3 (setCol0 ((n, s1, s2), (s1, s2, s3), (s2, s3, s4)) (r0, r1, r2)) =
           c * det3 ((n, s1, s2), (s1, s2, s3), (s2, s3, s4))"
    and "det3 (setCol1 ((n, s1, s2), (s1, s2, s3), (s2, s3, s4)) (r0, r1, r2)) =
           b * det3 ((n, s1, s2), (s1, s2, s3), (s2, s3, s4))"
    and "det3 (setCol2 ((n, s1, s2), (s1, s2, s3), (s2, s3, s4)) (r0, r1, r2)) =
           a * det3 ((n, s1, s2), (s1, s2, s3), (s2, s3, s4))"
  by (simp_all add: assms[symmetric] algebra_simps)

lemma solvesNormal_unique:
  assumes "solvesNormal ps q" and "normalDet ps \<noteq> 0"
  shows "q = cramer ps"
proof -
  from assms(1) have e:
    "real (length ps) * coef_c q + pSum 1 ps * coef_b q + pSum 2 ps * coef_a q = cSum 0 ps"
    "pSum 1 ps * coef_c q + pSum 2 ps * coef_b q + pSum 3 ps * coef_a q = cSum 1 ps"
    "pSum 2 ps * coef_c q + pSum 3 ps * coef_b q + pSum 4 ps * coef_a q = cSum 2 ps"
    by (simp_all add: solvesNormal_def)
  note u = cramer_unique_cols[OF e]
  have D: "det3 (normalMatrix ps) \<noteq> 0"
    using assms(2) by (simp add: normalDet_def)
  have c: "det3 (setCol0 (normalMatrix ps) (normalRhs ps)) = coef_c q * det3 (normalMatrix ps)"
    unfolding normalMatrix_def normalRhs_def by (rule u(1))
  have b: "det3 (setCol1 (normalMatrix ps) (normalRhs ps)) = coef_b q * det3 (normalMatrix ps)"
    unfolding normalMatrix_def normalRhs_def by (rule u(2))
  have a: "det3 (setCol2 (normalMatrix ps) (normalRhs ps)) = coef_a q * det3 (normalMatrix ps)"
    unfolding normalMatrix_def normalRhs_def by (rule u(3))
  have "coef_a (cramer ps) = coef_a q" "coef_b (cramer ps) = coef_b q" "coef_c (cramer ps) = coef_c q"
    by (simp_all add: cramer_def normalDet_def a b c D)
  then show ?thesis by (cases q) (simp add: cramer_def)
qed

subsection \<open>Points on a line, and abscissae with at most two values\<close>

lemma cSum_line:
  assumes "\<forall>p\<in>set ps. py p = m * px p + k"
  shows "cSum j ps = m * pSum (Suc j) ps + k * pSum j ps"
  using assms unfolding cSum_def pSum_def
  by (induction ps) (simp_all add: algebra_simps)

lemma cSum0_line:
  assumes "\<forall>p\<in>set ps. py p = m * px p + k"
  shows "cSum 0 ps = m * pSum 1 ps + k * real (length ps)"
  using assms unfolding cSum_def pSum_def
  by (induction ps) (simp_all add: algebra_simps)

lemma line_solves:
  assumes "\<forall>p\<in>set ps. py p = m * px p + k"
  shows "solvesNormal ps \<lparr>coef_a = 0, coef_b = m, coef_c = k\<rparr>"
  unfolding solvesNormal_def
  using cSum0_line[OF assms] cSum_line[OF assms, of 1] cSum_line[OF assms, of 2]
  by (simp add: algebra_simps numeral_2_eq_2 numeral_3_eq_3 eval_nat_numeral)

lemma pSum_two_values:
  assumes "\<forall>p\<in>set ps. px p = u \<or> px p = v"
  shows "pSum j ps = real (length (filter (\<lambda>p. px p = u) ps)) * u ^ j
                   + real (length (filter (\<lambda>p. px p \<noteq> u) ps)) * v ^ j"
  using assms unfolding pSum_def
  by (induction ps) (auto simp: algebra_simps)

lemma length_two_values:
  "real (length ps) = real (length (filter (\<lambda>p. px p = u) ps))
                    + real (length (filter (\<lambda>p. px p \<noteq> u) ps))"
  by (induction ps) auto

lemma det_two_values_aux:
  fixes cu cv u v :: real
  shows "det3 ((cu + cv, cu * u + cv * v, cu * u^2 + cv * v^2),
               (cu * u + cv * v, cu * u^2 + cv * v^2, cu * u^3 + cv * v^3),
               (cu * u^2 + cv * v^2, cu * u^3 + cv * v^3, cu * u^4 + cv * v^4)) = 0"
  by (simp add: algebra_simps power2_eq_square power3_eq_cube power4_eq_xxxx)

lemma normalDet_two_values:
  assumes "\<forall>p\<in>set ps. px p = u \<or> px p = v"
  shows "normalDet ps = 0"
  unfolding normalDet_def normalMatrix_def
  apply (subst length_two_values[of ps u])
  apply (simp only: pSum_two_values[OF assms] power_one_right)
  apply (rule det_two_values_aux)
  done

section \<open>Bounds and coordinate maps\<close>

lemma toScreenCoords_valid:
  "validBounds st \<Longrightarrow> toScreenCoords st x y = Some (viewX st x, viewY st y)"
  by (simp add: toScreenCoords_def validBounds_def fdiv_def viewX_def viewY_def Let_def)



lemma boundsLoop_fold:
  "boundsLoop ps (a, b, c, d) =
     (fold min (map px ps) a, fold max (map px ps) b, fold min (map py ps) c, fold max (map py ps) d)"
proof (induction ps arbitrary: a b c d)
  case Nil
  show ?case by simp
next
  case (Cons p ps)
  have "(if px p < a then px p else a) = min (px p) a"
       "(if px p > b then px p else b) = max (px p) b"
       "(if py p < c then py p else c) = min (py p) c"
       "(if py p > d then py p else d) = max (py p) d"
    by (auto simp: min_def max_def)
  then show ?case by (simp add: Cons.IH)
qed

lemma boundsLoop_front:
  "boundsLoop (f # r) (px f, px f, py f, py f) =
     (Min (px ` set (f # r)), Max (px ` set (f # r)), Min (py ` set (f # r)), Max (py ` set (f # r)))"
proof -
  have "fold min (map px r) (px f) = Min (set (px f # map px r))"
       "fold max (map px r) (px f) = Max (set (px f # map px r))"
       "fold min (map py r) (py f) = Min (set (py f # map py r))"
       "fold max (map py r) (py f) = Max (set (py f # map py r))"
    by (simp_all only: Min.set_eq_fold Max.set_eq_fold)
  then show ?thesis
    by (simp add: boundsLoop_fold)
qed

lemma Min_le_Max_img:
  fixes g :: "Point \<Rightarrow> real"
  shows "Min (g ` set (f # r)) \<le> Max (g ` set (f # r))"
proof -
  have "Min (g ` set (f # r)) \<le> g f" by (rule Min_le) simp_all
  also have "g f \<le> Max (g ` set (f # r))" by (rule Max_ge) simp_all
  finally show ?thesis .
qed

lemma updateModelAndBounds_Nil:
  assumes "dataPoints st = []"
  shows "updateModelAndBounds st =
           Some (st\<lparr>minX := - 1, maxX := 1, minY := - 1, maxY := 1, slope := 0, intercept := 0,
                    polyCoeffs := \<lparr>coef_a = 0, coef_b = 0, coef_c = 0\<rparr>\<rparr>)"
  using assms by (simp add: updateModelAndBounds_def)

lemma updateModelAndBounds_Cons:
  assumes "dataPoints st \<noteq> []"
  shows "\<exists>st'. updateModelAndBounds st = Some st' \<and>
           dataPoints st' = dataPoints st \<and> winW st' = winW st \<and> winH st' = winH st \<and>
           currentReg st' = currentReg st \<and>
           minX st' = Min (px ` set (dataPoints st)) - 1 \<and>
           maxX st' = Max (px ` set (dataPoints st)) + 1 \<and>
           minY st' = Min (py ` set (dataPoints st)) - 1 \<and>
           maxY st' = Max (py ` set (dataPoints st)) + 1"
proof -
  obtain f r where fr: "dataPoints st = f # r"
    using assms by (cases "dataPoints st") auto
  obtain s b where lin: "computeLinearRegression (f # r) = Some (s, b)"
    using computeLinearRegression_total[of "f # r"] by auto
  obtain pc where pol: "computePolynomialRegression2 (f # r) = Some pc"
    using computePolynomialRegression2_total[of "f # r"] by auto
  show ?thesis
    unfolding updateModelAndBounds_def fr
    by (cases "currentReg st") (simp_all add: fr boundsLoop_front lin pol del: boundsLoop.simps)
qed

lemma updateModelAndBounds_valid:
  "\<exists>st'. updateModelAndBounds st = Some st' \<and> validBounds st' \<and>
         dataPoints st' = dataPoints st \<and> winW st' = winW st \<and> winH st' = winH st"
proof (cases "dataPoints st")
  case Nil
  then show ?thesis
    by (simp add: updateModelAndBounds_Nil validBounds_def)
next
  case (Cons f r)
  then have ne: "dataPoints st \<noteq> []" by simp
  from updateModelAndBounds_Cons[OF ne] obtain st' where st':
    "updateModelAndBounds st = Some st'" "dataPoints st' = dataPoints st"
    "winW st' = winW st" "winH st' = winH st"
    "minX st' = Min (px ` set (dataPoints st)) - 1"
    "maxX st' = Max (px ` set (dataPoints st)) + 1"
    "minY st' = Min (py ` set (dataPoints st)) - 1"
    "maxY st' = Max (py ` set (dataPoints st)) + 1"
    by blast
  have "Min (px ` set (dataPoints st)) \<le> Max (px ` set (dataPoints st))"
       "Min (py ` set (dataPoints st)) \<le> Max (py ` set (dataPoints st))"
    unfolding Cons by (rule Min_le_Max_img)+
  then have "validBounds st'"
    by (simp add: validBounds_def st')
  with st' show ?thesis by simp
qed

lemma updateAxes_valid:
  assumes "validBounds st"
  shows "\<exists>st'. updateAxes st = Some st' \<and> dataPoints st' = dataPoints st \<and> validBounds st'"
  using assms
  by (simp add: updateAxes_def toScreenCoords_valid validBounds_def)

lemma exampleState_valid: "validBounds exampleState"
  by (simp add: validBounds_def exampleState_def)

lemma exampleState_reached:
  "(updateModelAndBounds
      (exampleState\<lparr>slope := 0, intercept := 0, minX := 0, maxX := 0, minY := 0, maxY := 0\<rparr>)
    \<bind> updateAxes) = Some exampleState"
  by (simp add: updateModelAndBounds_def updateAxes_def toScreenCoords_def
        computeLinearRegression_def fdiv_def exampleState_def)

section \<open>The nearest-point search\<close>

lemma firstArgmin_Cons_0:
  assumes "\<forall>d\<in>set ds. d0 \<le> d"
  shows "firstArgmin (d0 # ds) 0"
  using assms by (auto simp: firstArgmin_def nth_Cons split: nat.splits)

lemma firstArgmin_Cons_Suc:
  assumes "firstArgmin ds j" and "ds ! j < d0"
  shows "firstArgmin (d0 # ds) (Suc j)"
  using assms by (auto simp: firstArgmin_def nth_Cons less_Suc_eq_0_disj split: nat.splits)

lemma firstArgmin_unique:
  assumes "firstArgmin ds i" and "firstArgmin ds j"
  shows "i = j"
proof (rule ccontr)
  assume "i \<noteq> j"
  then consider "i < j" | "j < i" by linarith
  then show False
  proof cases
    case 1
    with assms have "ds ! j < ds ! i" "ds ! i \<le> ds ! j"
      by (auto simp: firstArgmin_def)
    then show False by simp
  next
    case 2
    with assms have "ds ! i < ds ! j" "ds ! j \<le> ds ! i"
      by (auto simp: firstArgmin_def)
    then show False by simp
  qed
qed

lemma argminFrom_char:
  "argminFrom ds i (md, mi) = (md', mi') \<Longrightarrow>
     (md' = md \<and> mi' = mi \<and> (\<forall>d\<in>set ds. md \<le> d)) \<or>
     (\<exists>j. firstArgmin ds j \<and> mi' = i + int j \<and> md' = ds ! j \<and> md' < md)"
proof (induction ds arbitrary: i md mi)
  case Nil
  then show ?case by simp
next
  case (Cons d ds)
  show ?case
  proof (cases "d < md")
    case True
    with Cons.prems have "argminFrom ds (i + 1) (d, i) = (md', mi')" by simp
    from Cons.IH[OF this] show ?thesis
    proof
      assume a: "md' = d \<and> mi' = i \<and> (\<forall>e\<in>set ds. d \<le> e)"
      then have "firstArgmin (d # ds) 0" by (simp add: firstArgmin_Cons_0)
      with a True have "firstArgmin (d # ds) 0 \<and> mi' = i + int 0 \<and> md' = (d # ds) ! 0 \<and> md' < md"
        by simp
      then show ?thesis by blast
    next
      assume "\<exists>j. firstArgmin ds j \<and> mi' = i + 1 + int j \<and> md' = ds ! j \<and> md' < d"
      then obtain j where j: "firstArgmin ds j" "mi' = i + 1 + int j" "md' = ds ! j" "md' < d"
        by blast
      then have "firstArgmin (d # ds) (Suc j)" by (simp add: firstArgmin_Cons_Suc)
      with j True have "firstArgmin (d # ds) (Suc j) \<and> mi' = i + int (Suc j) \<and>
          md' = (d # ds) ! Suc j \<and> md' < md"
        by simp
      then show ?thesis by blast
    qed
  next
    case False
    with Cons.prems have "argminFrom ds (i + 1) (md, mi) = (md', mi')" by simp
    from Cons.IH[OF this] show ?thesis
    proof
      assume "md' = md \<and> mi' = mi \<and> (\<forall>e\<in>set ds. md \<le> e)"
      with False show ?thesis by auto
    next
      assume "\<exists>j. firstArgmin ds j \<and> mi' = i + 1 + int j \<and> md' = ds ! j \<and> md' < md"
      then obtain j where j: "firstArgmin ds j" "mi' = i + 1 + int j" "md' = ds ! j" "md' < md"
        by blast
      with False have "ds ! j < d" by simp
      with j have "firstArgmin (d # ds) (Suc j)" by (simp add: firstArgmin_Cons_Suc)
      with j have "firstArgmin (d # ds) (Suc j) \<and> mi' = i + int (Suc j) \<and>
          md' = (d # ds) ! Suc j \<and> md' < md"
        by simp
      then show ?thesis by blast
    qed
  qed
qed

lemma firstArgmin_exists:
  assumes "ds \<noteq> []"
  shows "\<exists>j. firstArgmin ds j"
proof -
  obtain md' mi' where r: "argminFrom ds 0 (Max (set ds) + 1, - 1) = (md', mi')"
    by (cases "argminFrom ds 0 (Max (set ds) + 1, - 1)") auto
  from argminFrom_char[OF r] show ?thesis
  proof
    assume a: "md' = Max (set ds) + 1 \<and> mi' = - 1 \<and> (\<forall>d\<in>set ds. Max (set ds) + 1 \<le> d)"
    have "Max (set ds) \<in> set ds"
      using assms by (intro Max_in) simp_all
    with a have "Max (set ds) + 1 \<le> Max (set ds)" by blast
    then show ?thesis by simp
  next
    assume "\<exists>j. firstArgmin ds j \<and> mi' = 0 + int j \<and> md' = ds ! j \<and> md' < Max (set ds) + 1"
    then show ?thesis by blast
  qed
qed

lemma nearestLoop_argminFrom:
  assumes "validBounds st"
  shows "nearestLoop st qx qy ps i (md, mi) =
           Some (argminFrom (map (viewDist st qx qy) ps) i (md, mi))"
  by (induction ps arbitrary: i md mi)
     (simp_all add: toScreenCoords_valid[OF assms] viewDist_def power2_eq_square Let_def)

lemma erase_valid:
  assumes "j < length xs"
  shows "erase xs (int j) = Some (take j xs @ drop (Suc j) xs)"
  using assms by (simp add: erase_def)

lemma after_erase:
  assumes "validBounds st"
  shows "\<exists>st'. (updateModelAndBounds (st\<lparr>dataPoints := pts\<rparr>) \<bind> updateAxes) = Some st' \<and>
               dataPoints st' = pts \<and> validBounds st'"
proof -
  from updateModelAndBounds_valid[of "st\<lparr>dataPoints := pts\<rparr>"] obtain st1 where
    s1: "updateModelAndBounds (st\<lparr>dataPoints := pts\<rparr>) = Some st1" "validBounds st1"
        "dataPoints st1 = pts"
    by auto
  from updateAxes_valid[OF s1(2)] obtain st2 where
    s2: "updateAxes st1 = Some st2" "dataPoints st2 = dataPoints st1" "validBounds st2"
    by blast
  show ?thesis using s1 s2 by simp
qed

lemma removeNearestPoint_cases:
  assumes vb: "validBounds st" and ne: "dataPoints st \<noteq> []"
  shows "\<exists>i. firstArgmin (map (viewDist st qx qy) (dataPoints st)) i \<and>
           (viewDist st qx qy (dataPoints st ! i) < FLT_MAX \<longrightarrow>
              nearestLoop st qx qy (dataPoints st) 0 (FLT_MAX, - 1)
                = Some (viewDist st qx qy (dataPoints st ! i), int i)) \<and>
           (if viewDist st qx qy (dataPoints st ! i) < 10
            then \<exists>st'. removeNearestPoint st qx qy = Some st' \<and>
                   dataPoints st' = take i (dataPoints st) @ drop (Suc i) (dataPoints st)
            else removeNearestPoint st qx qy = Some st)"
proof -
  let ?ps = "dataPoints st"
  let ?ds = "map (viewDist st qx qy) ?ps"
  have dne: "?ds \<noteq> []" using ne by simp
  obtain md' mi' where r: "argminFrom ?ds 0 (FLT_MAX, - 1) = (md', mi')"
    by (cases "argminFrom ?ds 0 (FLT_MAX, - 1)") auto
  have loop: "nearestLoop st qx qy ?ps 0 (FLT_MAX, - 1) = Some (md', mi')"
    by (simp add: nearestLoop_argminFrom[OF vb] r)
  have rm: "removeNearestPoint st qx qy =
              (if md' < 10 \<and> mi' \<ge> 0
               then erase ?ps mi' \<bind> (\<lambda>pts. updateModelAndBounds (st\<lparr>dataPoints := pts\<rparr>) \<bind> updateAxes)
               else Some st)"
    using ne by (simp add: removeNearestPoint_def loop)
  from argminFrom_char[OF r] show ?thesis
  proof
    assume a: "md' = FLT_MAX \<and> mi' = - 1 \<and> (\<forall>d\<in>set ?ds. FLT_MAX \<le> d)"
    from firstArgmin_exists[OF dne] obtain i where i: "firstArgmin ?ds i" by blast
    then have il: "i < length ?ps" by (simp add: firstArgmin_def)
    then have "?ds ! i \<in> set ?ds" by (intro nth_mem) simp
    with a have "FLT_MAX \<le> ?ds ! i" by blast
    then have big: "FLT_MAX \<le> viewDist st qx qy (?ps ! i)" using il by simp
    then have "\<not> viewDist st qx qy (?ps ! i) < 10" "\<not> viewDist st qx qy (?ps ! i) < FLT_MAX"
      by (simp_all add: FLT_MAX_def)
    moreover have "removeNearestPoint st qx qy = Some st"
      using a by (simp add: rm)
    ultimately show ?thesis using i by (intro exI[of _ i]) simp
  next
    assume "\<exists>j. firstArgmin ?ds j \<and> mi' = 0 + int j \<and> md' = ?ds ! j \<and> md' < FLT_MAX"
    then obtain j where j: "firstArgmin ?ds j" "mi' = int j" "md' = ?ds ! j" "md' < FLT_MAX"
      by auto
    then have jl: "j < length ?ps" by (simp add: firstArgmin_def)
    then have md: "md' = viewDist st qx qy (?ps ! j)" using j by simp
    have l: "nearestLoop st qx qy ?ps 0 (FLT_MAX, - 1) = Some (viewDist st qx qy (?ps ! j), int j)"
      using loop md j by simp
    show ?thesis
    proof (cases "md' < 10")
      case True
      from after_erase[OF vb, of "take j ?ps @ drop (Suc j) ?ps"] obtain st' where
        "(updateModelAndBounds (st\<lparr>dataPoints := take j ?ps @ drop (Suc j) ?ps\<rparr>) \<bind> updateAxes) = Some st'"
        "dataPoints st' = take j ?ps @ drop (Suc j) ?ps"
        by blast
      then have "removeNearestPoint st qx qy = Some st' \<and>
                 dataPoints st' = take j ?ps @ drop (Suc j) ?ps"
        using True j(2) by (simp add: rm erase_valid[OF jl])
      then show ?thesis using j(1) l True md by (intro exI[of _ j]) auto
    next
      case False
      then have "removeNearestPoint st qx qy = Some st" by (simp add: rm)
      then show ?thesis using j(1) l False md by (intro exI[of _ j]) auto
    qed
  qed
qed

lemma exampleState_dists:
  "map (viewDist exampleState 225 455) (dataPoints exampleState) = [0, sqrt 158600]"
  by (simp add: viewDist_def viewX_def viewY_def exampleState_def)

lemma exampleState_argmin:
  "firstArgmin [0, sqrt 158600] i \<longleftrightarrow> i = 0"
  by (auto simp: firstArgmin_def nth_Cons less_Suc_eq_0_disj split: nat.splits)

section \<open>The properties\<close>

text \<open>
  Claim C1. \<^verbatim>\<open>computeLinearRegression\<close> returns \<open>(0, 0)\<close> on the empty list. On any other
  list, with \<open>meanOf px\<close> and \<open>meanOf py\<close> the arithmetic means, it returns the slope
  \<open>covSum / varSum\<close> and the intercept \<open>mean y - slope \<sqdot> mean x\<close> when the sum of squared
  deviations \<open>varSum\<close> is not zero, and slope \<open>0\<close> with intercept \<open>mean y\<close> when it is zero;
  and \<open>varSum\<close> is zero exactly when all abscissae are the same.
\<close>

theorem computeLinearRegression_least_squares:
  "computeLinearRegression ps =
     Some (if ps = [] then (0, 0)
           else if varSum ps \<noteq> 0
                then (covSum ps / varSum ps, meanOf py ps - covSum ps / varSum ps * meanOf px ps)
                else (0, meanOf py ps))
   \<and> (ps \<noteq> [] \<longrightarrow> (varSum ps = 0 \<longleftrightarrow> (\<forall>p\<in>set ps. \<forall>q\<in>set ps. px p = px q)))"
proof
  show "computeLinearRegression ps =
     Some (if ps = [] then (0, 0)
           else if varSum ps \<noteq> 0
                then (covSum ps / varSum ps, meanOf py ps - covSum ps / varSum ps * meanOf px ps)
                else (0, meanOf py ps))"
    by (simp add: computeLinearRegression_closed covSum_def varSum_def Let_def)
  show "ps \<noteq> [] \<longrightarrow> (varSum ps = 0 \<longleftrightarrow> (\<forall>p\<in>set ps. \<forall>q\<in>set ps. px p = px q))"
    unfolding varSum_def using den_zero_iff[of ps] by blast
qed

text \<open>
  The line \<open>y = 2x + 1\<close> is recovered from three of its points; two points over the
  same abscissa give the horizontal line through their mean.
\<close>

theorem computeLinearRegression_least_squares_witness:
  "computeLinearRegression [\<lparr>px = 0, py = 1\<rparr>, \<lparr>px = 1, py = 3\<rparr>, \<lparr>px = 2, py = 5\<rparr>] = Some (2, 1)
   \<and> computeLinearRegression [\<lparr>px = 4, py = 1\<rparr>, \<lparr>px = 4, py = 3\<rparr>] = Some (0, 2)
   \<and> computeLinearRegression [] = Some (0, 0)"
  using computeLinearRegression_least_squares
          [of "[\<lparr>px = 0, py = 1\<rparr>, \<lparr>px = 1, py = 3\<rparr>, \<lparr>px = 2, py = 5\<rparr>]"]
        computeLinearRegression_least_squares
          [of "[\<lparr>px = 4, py = 1\<rparr>, \<lparr>px = 4, py = 3\<rparr>]"]
        computeLinearRegression_least_squares [of "[]"]
  by (simp add: varSum_def covSum_def meanOf_def)

text \<open>
  Claim C2. On at least three points whose normal-equations matrix
  \<open>[[n, Sx, Sx2], [Sx, Sx2, Sx3], [Sx2, Sx3, Sx4]]\<close> has a determinant of absolute value
  at least \<open>10\<^sup>-\<^sup>1\<^sup>2\<close>, \<^verbatim>\<open>computePolynomialRegression2\<close> returns the Cramer quotients for
  the right-hand side \<open>(Sy, Sxy, Sx2y)\<close>; these solve the three normal equations, and
  nothing else does.
\<close>

theorem computePolynomialRegression2_cramer:
  assumes "3 \<le> length ps" and "detEps \<le> \<bar>normalDet ps\<bar>"
  shows "computePolynomialRegression2 ps = Some (cramer ps)
         \<and> solvesNormal ps (cramer ps)
         \<and> (\<forall>q. solvesNormal ps q \<longrightarrow> q = cramer ps)"
proof -
  have nz: "normalDet ps \<noteq> 0"
    using assms(2) detEps_pos by auto
  have "computePolynomialRegression2 ps = Some (cramer ps)"
    using assms by (simp add: poly2_cases)
  moreover have "solvesNormal ps (cramer ps)"
    by (rule cramer_solves[OF nz])
  moreover have "\<forall>q. solvesNormal ps q \<longrightarrow> q = cramer ps"
    using solvesNormal_unique[OF _ nz] by blast
  ultimately show ?thesis by blast
qed

text \<open>
  On \<open>(0,0), (1,1), (2,4)\<close> the determinant is \<open>4\<close> and the result is \<open>a = 1\<close>, \<open>b = 0\<close>,
  \<open>c = 0\<close>.
\<close>

theorem computePolynomialRegression2_cramer_witness:
  "3 \<le> length [\<lparr>px = 0, py = 0\<rparr>, \<lparr>px = 1, py = 1\<rparr>, \<lparr>px = 2, py = 4\<rparr>]
   \<and> detEps \<le> \<bar>normalDet [\<lparr>px = 0, py = 0\<rparr>, \<lparr>px = 1, py = 1\<rparr>, \<lparr>px = 2, py = 4\<rparr>]\<bar>
   \<and> computePolynomialRegression2 [\<lparr>px = 0, py = 0\<rparr>, \<lparr>px = 1, py = 1\<rparr>, \<lparr>px = 2, py = 4\<rparr>]
       = Some \<lparr>coef_a = 1, coef_b = 0, coef_c = 0\<rparr>"
proof -
  let ?P = "[\<lparr>px = 0, py = 0\<rparr>, \<lparr>px = 1, py = 1\<rparr>, \<lparr>px = 2, py = 4\<rparr>]"
  have d: "normalDet ?P = 4"
    by (simp add: normalDet_def normalMatrix_def pSum_def)
  have h1: "3 \<le> length ?P" by simp
  have h2: "detEps \<le> \<bar>normalDet ?P\<bar>" by (simp add: d detEps_def)
  have c: "cramer ?P = \<lparr>coef_a = 1, coef_b = 0, coef_c = 0\<rparr>"
    by (simp add: cramer_def d normalMatrix_def normalRhs_def pSum_def cSum_def)
  from computePolynomialRegression2_cramer[OF h1 h2] h1 h2 c show ?thesis by simp
qed

text \<open>
  Claim C3. \<^verbatim>\<open>computePolynomialRegression2\<close> returns the zero coefficients, and no fault,
  when there are fewer than three points and when the determinant of the
  normal-equations matrix is below \<open>10\<^sup>-\<^sup>1\<^sup>2\<close> in absolute value.
\<close>

theorem computePolynomialRegression2_degenerate:
  assumes "length ps < 3 \<or> \<bar>normalDet ps\<bar> < detEps"
  shows "computePolynomialRegression2 ps = Some \<lparr>coef_a = 0, coef_b = 0, coef_c = 0\<rparr>"
  using assms by (simp add: poly2_cases)

text \<open>
  Two points; and three points over only two abscissae, where the determinant is \<open>0\<close>.
\<close>

theorem computePolynomialRegression2_degenerate_witness:
  "length [\<lparr>px = 1, py = 2\<rparr>, \<lparr>px = 3, py = 4\<rparr>] < 3
   \<and> computePolynomialRegression2 [\<lparr>px = 1, py = 2\<rparr>, \<lparr>px = 3, py = 4\<rparr>]
       = Some \<lparr>coef_a = 0, coef_b = 0, coef_c = 0\<rparr>
   \<and> \<not> length [\<lparr>px = 1, py = 0\<rparr>, \<lparr>px = 1, py = 5\<rparr>, \<lparr>px = 2, py = 3\<rparr>] < 3
   \<and> \<bar>normalDet [\<lparr>px = 1, py = 0\<rparr>, \<lparr>px = 1, py = 5\<rparr>, \<lparr>px = 2, py = 3\<rparr>]\<bar> < detEps
   \<and> computePolynomialRegression2 [\<lparr>px = 1, py = 0\<rparr>, \<lparr>px = 1, py = 5\<rparr>, \<lparr>px = 2, py = 3\<rparr>]
       = Some \<lparr>coef_a = 0, coef_b = 0, coef_c = 0\<rparr>"
proof -
  let ?P = "[\<lparr>px = 1, py = 2\<rparr>, \<lparr>px = 3, py = 4\<rparr>]"
  let ?Q = "[\<lparr>px = 1, py = 0\<rparr>, \<lparr>px = 1, py = 5\<rparr>, \<lparr>px = 2, py = 3\<rparr>]"
  have h1: "length ?P < 3 \<or> \<bar>normalDet ?P\<bar> < detEps" by simp
  have d: "\<bar>normalDet ?Q\<bar> < detEps"
    by (simp add: normalDet_def normalMatrix_def pSum_def detEps_def)
  then have h2: "length ?Q < 3 \<or> \<bar>normalDet ?Q\<bar> < detEps" by simp
  from computePolynomialRegression2_degenerate[OF h1]
       computePolynomialRegression2_degenerate[OF h2] d
  show ?thesis by simp
qed

text \<open>
  Claim C4, as stated: three or more points on a line \<open>y = m x + k\<close> make the determinant
  fall below the threshold, and the result is the zero coefficients. It fails on
  \<open>(0,0), (1,1), (2,2)\<close>: the matrix is built from the abscissae alone, its determinant
  there is \<open>4\<close>, and the fit returns the line, \<open>a = 0\<close>, \<open>b = 1\<close>, \<open>c = 0\<close>.
\<close>

theorem colinear_points_counterexample:
  "py \<lparr>px = 0, py = 0\<rparr> = 1 * px \<lparr>px = 0, py = 0\<rparr> + 0
   \<and> py \<lparr>px = 1, py = 1\<rparr> = 1 * px \<lparr>px = 1, py = 1\<rparr> + 0
   \<and> py \<lparr>px = 2, py = 2\<rparr> = 1 * px \<lparr>px = 2, py = 2\<rparr> + 0
   \<and> normalDet [\<lparr>px = 0, py = 0\<rparr>, \<lparr>px = 1, py = 1\<rparr>, \<lparr>px = 2, py = 2\<rparr>] = 4
   \<and> \<not> \<bar>normalDet [\<lparr>px = 0, py = 0\<rparr>, \<lparr>px = 1, py = 1\<rparr>, \<lparr>px = 2, py = 2\<rparr>]\<bar> < detEps
   \<and> computePolynomialRegression2 [\<lparr>px = 0, py = 0\<rparr>, \<lparr>px = 1, py = 1\<rparr>, \<lparr>px = 2, py = 2\<rparr>]
       = Some \<lparr>coef_a = 0, coef_b = 1, coef_c = 0\<rparr>"
proof -
  let ?P = "[\<lparr>px = 0, py = 0\<rparr>, \<lparr>px = 1, py = 1\<rparr>, \<lparr>px = 2, py = 2\<rparr>]"
  have d: "normalDet ?P = 4"
    by (simp add: normalDet_def normalMatrix_def pSum_def)
  have c: "cramer ?P = \<lparr>coef_a = 0, coef_b = 1, coef_c = 0\<rparr>"
    by (simp add: cramer_def d normalMatrix_def normalRhs_def pSum_def cSum_def)
  have "computePolynomialRegression2 ?P = Some \<lparr>coef_a = 0, coef_b = 1, coef_c = 0\<rparr>"
    by (simp add: poly2_cases d c detEps_def)
  then show ?thesis by (simp add: d detEps_def)
qed

text \<open>
  Claim C4, amended. On three or more points of a line \<open>y = m x + k\<close>,
  \<^verbatim>\<open>computePolynomialRegression2\<close> returns the zero coefficients when the determinant is
  below the threshold, and otherwise the line itself, \<open>a = 0\<close>, \<open>b = m\<close>, \<open>c = k\<close>. The
  determinant is zero whenever the abscissae take at most two values.
\<close>

theorem computePolynomialRegression2_on_line:
  assumes "3 \<le> length ps" and "\<forall>p\<in>set ps. py p = m * px p + k"
  shows "computePolynomialRegression2 ps =
           Some (if \<bar>normalDet ps\<bar> < detEps then \<lparr>coef_a = 0, coef_b = 0, coef_c = 0\<rparr>
                 else \<lparr>coef_a = 0, coef_b = m, coef_c = k\<rparr>)
         \<and> ((\<exists>u v. \<forall>p\<in>set ps. px p = u \<or> px p = v) \<longrightarrow> normalDet ps = 0)"
proof
  show "computePolynomialRegression2 ps =
           Some (if \<bar>normalDet ps\<bar> < detEps then \<lparr>coef_a = 0, coef_b = 0, coef_c = 0\<rparr>
                 else \<lparr>coef_a = 0, coef_b = m, coef_c = k\<rparr>)"
  proof (cases "\<bar>normalDet ps\<bar> < detEps")
    case True
    then show ?thesis by (simp add: poly2_cases)
  next
    case False
    then have nz: "normalDet ps \<noteq> 0" using detEps_pos by auto
    have "\<lparr>coef_a = 0, coef_b = m, coef_c = k\<rparr> = cramer ps"
      by (rule solvesNormal_unique[OF line_solves[OF assms(2)] nz])
    then show ?thesis using False assms(1) by (simp add: poly2_cases)
  qed
  show "(\<exists>u v. \<forall>p\<in>set ps. px p = u \<or> px p = v) \<longrightarrow> normalDet ps = 0"
    using normalDet_two_values by blast
qed

text \<open>
  The three points \<open>(0,1), (1,3), (2,5)\<close> of \<open>y = 2x + 1\<close>.
\<close>

theorem computePolynomialRegression2_on_line_witness:
  "3 \<le> length [\<lparr>px = 0, py = 1\<rparr>, \<lparr>px = 1, py = 3\<rparr>, \<lparr>px = 2, py = 5\<rparr>]
   \<and> py \<lparr>px = 0, py = 1\<rparr> = 2 * px \<lparr>px = 0, py = 1\<rparr> + 1
   \<and> py \<lparr>px = 1, py = 3\<rparr> = 2 * px \<lparr>px = 1, py = 3\<rparr> + 1
   \<and> py \<lparr>px = 2, py = 5\<rparr> = 2 * px \<lparr>px = 2, py = 5\<rparr> + 1
   \<and> computePolynomialRegression2 [\<lparr>px = 0, py = 1\<rparr>, \<lparr>px = 1, py = 3\<rparr>, \<lparr>px = 2, py = 5\<rparr>]
       = Some \<lparr>coef_a = 0, coef_b = 2, coef_c = 1\<rparr>"
proof -
  let ?P = "[\<lparr>px = 0, py = 1\<rparr>, \<lparr>px = 1, py = 3\<rparr>, \<lparr>px = 2, py = 5\<rparr>]"
  have d: "normalDet ?P = 4"
    by (simp add: normalDet_def normalMatrix_def pSum_def)
  have h1: "3 \<le> length ?P" by simp
  have h2: "\<forall>p\<in>set ?P. py p = 2 * px p + 1" by simp
  from computePolynomialRegression2_on_line[OF h1 h2] h1 h2 show ?thesis
    by (simp add: d detEps_def)
qed



text \<open>
  Claim C6. On a non-empty point list there is an index \<open>i\<close> whose point is nearest to
  the query in the viewport and is the first to be so. Whenever that distance is below
  \<^verbatim>\<open>FLT_MAX\<close>, the start value of the search, the search loop returns this distance and
  this index. \<^verbatim>\<open>removeNearestPoint\<close> erases exactly the element at \<open>i\<close> when the distance
  is strictly below \<open>10\<close>, and otherwise returns the state as it was.
\<close>

theorem removeNearestPoint_nearest:
  assumes "validBounds st" and "dataPoints st \<noteq> []"
  shows "\<exists>i. firstArgmin (map (viewDist st qx qy) (dataPoints st)) i \<and>
           (viewDist st qx qy (dataPoints st ! i) < FLT_MAX \<longrightarrow>
              nearestLoop st qx qy (dataPoints st) 0 (FLT_MAX, - 1)
                = Some (viewDist st qx qy (dataPoints st ! i), int i)) \<and>
           (if viewDist st qx qy (dataPoints st ! i) < 10
            then \<exists>st'. removeNearestPoint st qx qy = Some st' \<and>
                   dataPoints st' = take i (dataPoints st) @ drop (Suc i) (dataPoints st)
            else removeNearestPoint st qx qy = Some st)"
  by (rule removeNearestPoint_cases[OF assms])

text \<open>
  A click on the pixel of the first point of the example state: distance \<open>0\<close>, index
  \<open>0\<close>, and the second point is what remains.
\<close>

theorem removeNearestPoint_nearest_witness:
  "validBounds exampleState \<and> dataPoints exampleState \<noteq> []
   \<and> nearestLoop exampleState 225 455 (dataPoints exampleState) 0 (FLT_MAX, - 1) = Some (0, 0)
   \<and> (\<exists>st'. removeNearestPoint exampleState 225 455 = Some st'
             \<and> dataPoints st' = [\<lparr>px = 2, py = 2\<rparr>])"
proof -
  have ne: "dataPoints exampleState \<noteq> []" by (simp add: exampleState_def)
  have d0: "viewDist exampleState 225 455 (dataPoints exampleState ! 0) = 0"
    by (simp add: viewDist_def viewX_def viewY_def exampleState_def)
  have e: "drop (Suc 0) (dataPoints exampleState) = [\<lparr>px = 2, py = 2\<rparr>]"
    by (simp add: exampleState_def)
  from removeNearestPoint_nearest[OF exampleState_valid ne, of 225 455]
  show ?thesis
    unfolding exampleState_dists exampleState_argmin
    using exampleState_valid ne by (simp add: d0 e FLT_MAX_def)
qed

text \<open>
  Claim C7. \<^verbatim>\<open>updateModelAndBounds\<close> always returns a state. Its bounds are
  \<open>[-1, 1] \<times> [-1, 1]\<close> when there is no point, and otherwise the least and greatest
  coordinates of the points moved outward by \<open>1\<close>; in both cases \<open>minX < maxX\<close> and
  \<open>minY < maxY\<close>.
\<close>

theorem updateModelAndBounds_bounds:
  "\<exists>st'. updateModelAndBounds st = Some st' \<and>
     (if dataPoints st = []
      then minX st' = - 1 \<and> maxX st' = 1 \<and> minY st' = - 1 \<and> maxY st' = 1
      else minX st' = Min (px ` set (dataPoints st)) - 1 \<and>
           maxX st' = Max (px ` set (dataPoints st)) + 1 \<and>
           minY st' = Min (py ` set (dataPoints st)) - 1 \<and>
           maxY st' = Max (py ` set (dataPoints st)) + 1) \<and>
     minX st' < maxX st' \<and> minY st' < maxY st'"
proof -
  from updateModelAndBounds_valid[of st] obtain st' where
    st': "updateModelAndBounds st = Some st'" "validBounds st'"
    by blast
  show ?thesis
  proof (cases "dataPoints st = []")
    case True
    with st' show ?thesis
      by (auto simp: updateModelAndBounds_Nil validBounds_def)
  next
    case False
    from updateModelAndBounds_Cons[OF False] st' False show ?thesis
      by (auto simp: validBounds_def)
  qed
qed

text \<open>
  A single point \<open>(3, 7)\<close>, and no point.
\<close>

theorem updateModelAndBounds_bounds_witness:
  "(\<exists>st'. updateModelAndBounds (exampleState\<lparr>dataPoints := [\<lparr>px = 3, py = 7\<rparr>]\<rparr>) = Some st' \<and>
          minX st' = 2 \<and> maxX st' = 4 \<and> minY st' = 6 \<and> maxY st' = 8)
   \<and> (\<exists>st'. updateModelAndBounds (exampleState\<lparr>dataPoints := []\<rparr>) = Some st' \<and>
          minX st' = - 1 \<and> maxX st' = 1 \<and> minY st' = - 1 \<and> maxY st' = 1)"
  using updateModelAndBounds_bounds[of "exampleState\<lparr>dataPoints := [\<lparr>px = 3, py = 7\<rparr>]\<rparr>"]
        updateModelAndBounds_bounds[of "exampleState\<lparr>dataPoints := []\<rparr>"]
  by auto

text \<open>
  Claim C8. \<^verbatim>\<open>removeNearestPoint\<close> returns the state unchanged when there is no point,
  and when the search ends with a distance that is not below \<open>10\<close> or with a negative
  index. In a state with valid bounds it never faults, and it either changes nothing or
  erases the element at an index of the list, which is then shorter by one.
\<close>

theorem removeNearestPoint_noop:
  "(dataPoints st = [] \<longrightarrow> removeNearestPoint st qx qy = Some st)
   \<and> (\<forall>minDist minIndex.
         nearestLoop st qx qy (dataPoints st) 0 (FLT_MAX, - 1) = Some (minDist, minIndex) \<and>
         \<not> (minDist < 10 \<and> 0 \<le> minIndex)
         \<longrightarrow> removeNearestPoint st qx qy = Some st)
   \<and> (validBounds st \<longrightarrow>
         (\<exists>st'. removeNearestPoint st qx qy = Some st' \<and>
            (st' = st \<or>
             (\<exists>i<length (dataPoints st).
                dataPoints st' = take i (dataPoints st) @ drop (Suc i) (dataPoints st) \<and>
                Suc (length (dataPoints st')) = length (dataPoints st)))))"
proof (intro conjI impI allI)
  assume "dataPoints st = []"
  then show "removeNearestPoint st qx qy = Some st"
    by (simp add: removeNearestPoint_def)
next
  fix minDist minIndex
  assume "nearestLoop st qx qy (dataPoints st) 0 (FLT_MAX, - 1) = Some (minDist, minIndex) \<and>
          \<not> (minDist < 10 \<and> 0 \<le> minIndex)"
  then show "removeNearestPoint st qx qy = Some st"
    by (auto simp: removeNearestPoint_def)
next
  assume vb: "validBounds st"
  show "\<exists>st'. removeNearestPoint st qx qy = Some st' \<and>
            (st' = st \<or>
             (\<exists>i<length (dataPoints st).
                dataPoints st' = take i (dataPoints st) @ drop (Suc i) (dataPoints st) \<and>
                Suc (length (dataPoints st')) = length (dataPoints st)))"
  proof (cases "dataPoints st = []")
    case True
    then show ?thesis by (simp add: removeNearestPoint_def)
  next
    case False
    from removeNearestPoint_cases[OF vb False, of qx qy] obtain i where
      i: "firstArgmin (map (viewDist st qx qy) (dataPoints st)) i"
         "if viewDist st qx qy (dataPoints st ! i) < 10
          then \<exists>st'. removeNearestPoint st qx qy = Some st' \<and>
                 dataPoints st' = take i (dataPoints st) @ drop (Suc i) (dataPoints st)
          else removeNearestPoint st qx qy = Some st"
      by blast
    from i(1) have il: "i < length (dataPoints st)" by (simp add: firstArgmin_def)
    show ?thesis
    proof (cases "viewDist st qx qy (dataPoints st ! i) < 10")
      case True
      with i(2) obtain st' where st': "removeNearestPoint st qx qy = Some st'"
        "dataPoints st' = take i (dataPoints st) @ drop (Suc i) (dataPoints st)"
        by auto
      from st'(2) il have "Suc (length (dataPoints st')) = length (dataPoints st)"
        by simp
      with st' il show ?thesis by blast
    next
      case False
      with i(2) show ?thesis by simp
    qed
  qed
qed

text \<open>
  The example state without its points, and the example state itself.
\<close>

theorem removeNearestPoint_noop_witness:
  "dataPoints (exampleState\<lparr>dataPoints := []\<rparr>) = []
   \<and> removeNearestPoint (exampleState\<lparr>dataPoints := []\<rparr>) 225 455
       = Some (exampleState\<lparr>dataPoints := []\<rparr>)
   \<and> validBounds exampleState
   \<and> (\<exists>st'. removeNearestPoint exampleState 225 455 = Some st')"
proof -
  have h: "dataPoints (exampleState\<lparr>dataPoints := []\<rparr>) = []" by simp
  from removeNearestPoint_noop[of "exampleState\<lparr>dataPoints := []\<rparr>" 225 455] h
       removeNearestPoint_noop[of exampleState 225 455] exampleState_valid
  show ?thesis by blast
qed

text \<open>
  Claim C9. No division of the two fitting functions has the divisor zero: both return
  a result on every list of points. (\<open>fdiv\<close> yields \<open>None\<close> on a zero divisor, and every
  division of the two functions is bound in the \<open>option\<close> monad, so a zero divisor
  anywhere would make the result \<open>None\<close>.)
\<close>

theorem fit_divisions_guarded:
  "(\<exists>r. computeLinearRegression ps = Some r) \<and> (\<exists>q. computePolynomialRegression2 ps = Some q)"
  using computeLinearRegression_total[of ps] computePolynomialRegression2_total[of ps] by blast

text \<open>
  Three points over one abscissa, where the variance and the determinant are both
  zero, and the empty list.
\<close>

theorem fit_divisions_guarded_witness:
  "computeLinearRegression [\<lparr>px = 4, py = 1\<rparr>, \<lparr>px = 4, py = 3\<rparr>, \<lparr>px = 4, py = 5\<rparr>] \<noteq> None
   \<and> computePolynomialRegression2 [\<lparr>px = 4, py = 1\<rparr>, \<lparr>px = 4, py = 3\<rparr>, \<lparr>px = 4, py = 5\<rparr>] \<noteq> None
   \<and> computeLinearRegression [] \<noteq> None"
  using fit_divisions_guarded[of "[\<lparr>px = 4, py = 1\<rparr>, \<lparr>px = 4, py = 3\<rparr>, \<lparr>px = 4, py = 5\<rparr>]"]
        fit_divisions_guarded[of "[]"]
  by auto

text \<open>
  Claim C10. When no point is at a viewport distance strictly below \<open>10\<close> from the
  query, \<^verbatim>\<open>removeNearestPoint\<close> returns the very state it was given: the points, the
  bounds, the linear and the quadratic coefficients and the axes are all as before.
\<close>

theorem removeNearestPoint_frame:
  assumes "validBounds st" and "\<forall>p\<in>set (dataPoints st). \<not> viewDist st qx qy p < 10"
  shows "removeNearestPoint st qx qy = Some st"
proof (cases "dataPoints st = []")
  case True
  then show ?thesis by (simp add: removeNearestPoint_def)
next
  case False
  from removeNearestPoint_cases[OF assms(1) False, of qx qy] obtain i where
    i: "firstArgmin (map (viewDist st qx qy) (dataPoints st)) i"
       "if viewDist st qx qy (dataPoints st ! i) < 10
        then \<exists>st'. removeNearestPoint st qx qy = Some st' \<and>
               dataPoints st' = take i (dataPoints st) @ drop (Suc i) (dataPoints st)
        else removeNearestPoint st qx qy = Some st"
    by blast
  from i(1) have "dataPoints st ! i \<in> set (dataPoints st)"
    by (simp add: firstArgmin_def)
  with assms(2) have "\<not> viewDist st qx qy (dataPoints st ! i) < 10" by blast
  with i(2) show ?thesis by simp
qed

text \<open>
  A click at \<open>(400, 455)\<close> in the example state is \<open>175\<close> pixels from the first point
  and further from the second.
\<close>

theorem removeNearestPoint_frame_witness:
  "validBounds exampleState
   \<and> \<not> viewDist exampleState 400 455 \<lparr>px = 0, py = 0\<rparr> < 10
   \<and> \<not> viewDist exampleState 400 455 \<lparr>px = 2, py = 2\<rparr> < 10
   \<and> removeNearestPoint exampleState 400 455 = Some exampleState"
proof -
  have far: "\<forall>p\<in>set (dataPoints exampleState). \<not> viewDist exampleState 400 455 p < 10"
  proof -
    have "\<not> sqrt v < 10" if "100 \<le> v" for v :: real
      using real_le_rsqrt[of 10 v] that by simp
    then show ?thesis
      by (simp add: viewDist_def viewX_def viewY_def exampleState_def)
  qed
  have pts: "dataPoints exampleState = [\<lparr>px = 0, py = 0\<rparr>, \<lparr>px = 2, py = 2\<rparr>]"
    by (simp add: exampleState_def)
  from removeNearestPoint_frame[OF exampleState_valid far] exampleState_valid far
  show ?thesis by (simp add: pts)
qed

end
